theory Spec2Isabelle
  imports
    Main
    "HOL-Library.Word"
    "HOL-Library.Char_ord"
    "HOL-Library.List_Lexorder"
    "HOL-Library.Multiset"
    "HOL-Library.AList"
begin

unbundle bit_operations_syntax

section \<open>The Go library functions that oci.go calls\<close>

subsection \<open>Errors\<close>

text \<open>
  Go errors are values. \<open>errors.New\<close> builds an error from its message; the
  \<open>os\<close> package reports a failed system call as a \<open>*PathError\<close> (operation,
  path, errno) or a \<open>*SyscallError\<close> (call, errno).
\<close>

datatype errno = ENOENT | ENOTDIR | EISDIR | EEXIST | ELOOP | EBADF

datatype error =
    errors_New string
  | PathError string string errno
  | SyscallError string errno

subsection \<open>path.Clean, path.Join and filepath.Dir\<close>

text \<open>
  \<open>components\<close> cuts a path at every slash, as \<open>strings.Split(p, "/")\<close> does;
  \<open>joinSlash\<close> is \<open>strings.Join(elems, "/")\<close>.
\<close>

fun components :: "string \<Rightarrow> string list" where
  "components [] = [[]]"
| "components (c # cs) =
     (if c = CHR ''/'' then [] # components cs
      else (case components cs of [] \<Rightarrow> [[c]] | x # xs \<Rightarrow> (c # x) # xs))"

fun joinSlash :: "string list \<Rightarrow> string" where
  "joinSlash [] = []"
| "joinSlash [x] = x"
| "joinSlash (x # y # ys) = x @ CHR ''/'' # joinSlash (y # ys)"

definition rooted :: "string \<Rightarrow> bool" where
  "rooted p = (case p of [] \<Rightarrow> False | c # _ \<Rightarrow> c = CHR ''/'')"

text \<open>
  One element of the path met by \<open>Clean\<close>, with the elements kept so far as a stack
  (the last one first): empty elements and \<open>.\<close> are dropped, \<open>..\<close> removes the
  element before it, is dropped at the root, and is kept at the start of a path that is
  not rooted.
\<close>

definition cleanStep :: "bool \<Rightarrow> string \<Rightarrow> string list \<Rightarrow> string list" where
  "cleanStep rt e st =
     (if e = [] \<or> e = ''.'' then st
      else if e = ''..'' then
        (case st of
           [] \<Rightarrow> if rt then [] else [''..'']
         | t # ts \<Rightarrow> if t = ''..'' then ''..'' # st else ts)
      else e # st)"

definition cleanElems :: "bool \<Rightarrow> string \<Rightarrow> string list" where
  "cleanElems rt p = rev (fold (cleanStep rt) (components p) [])"

definition Clean :: "string \<Rightarrow> string" where
  "Clean p =
     (if p = [] then ''.''
      else if rooted p then CHR ''/'' # joinSlash (cleanElems True p)
      else (case cleanElems False p of [] \<Rightarrow> ''.'' | es \<Rightarrow> joinSlash es))"

text \<open>
  \<open>Join\<close> starts at the first element that is not empty, joins the rest with slashes
  and cleans the result; with no such element it returns the empty string. On Linux
  \<open>filepath.Join\<close> is the same function as \<open>path.Join\<close>.
\<close>

definition path_Join :: "string list \<Rightarrow> string" where
  "path_Join elem =
     (case dropWhile (\<lambda>e. e = []) elem of [] \<Rightarrow> [] | es \<Rightarrow> Clean (joinSlash es))"

definition filepath_Join :: "string list \<Rightarrow> string" where
  "filepath_Join elem = path_Join elem"

text \<open>\<open>filepath.Dir\<close> cleans the path up to and including its last slash.\<close>

definition filepath_Dir :: "string \<Rightarrow> string" where
  "filepath_Dir p = Clean (rev (dropWhile (\<lambda>c. c \<noteq> CHR ''/'') (rev p)))"

subsection \<open>os.FileMode and os.FileInfo\<close>

type_synonym FileMode = "32 word"

definition ModeDir :: FileMode where
  "ModeDir = push_bit 31 1"

definition ModeSymlink :: FileMode where
  "ModeSymlink = push_bit 27 1"

definition ModePerm :: FileMode where
  "ModePerm = 0x1FF"

text \<open>
  \<open>os.FileInfo\<close> is an interface; oci.go calls \<open>Name()\<close>, \<open>IsDir()\<close> and
  \<open>Mode()\<close> on it and nothing else.
\<close>

record FileInfo =
  Name :: string
  IsDir :: bool
  Mode :: FileMode

section \<open>isValidHook\<close>

text \<open>The octal literal \<open>0111\<close> of the source is 73.\<close>

definition isValidHook :: "FileInfo \<Rightarrow> bool \<times> error option" where
  "isValidHook file =
     (if IsDir file then (False, Some (errors_New ''is a directory''))
      else
        let mode = Mode file in
        if (mode AND ModeSymlink) \<noteq> 0 then (False, Some (errors_New ''is a symbolic link''))
        else
          let perm = mode AND ModePerm in
          if (perm AND 73) = 0 then (False, Some (errors_New ''is not executable''))
          else (True, None))"

text \<open>The names the specification gives to the three rejections.\<close>

definition NotAFile :: error where
  "NotAFile = errors_New ''is a directory''"

definition IsSymlink :: error where
  "IsSymlink = errors_New ''is a symbolic link''"

definition NotExecutable :: error where
  "NotExecutable = errors_New ''is not executable''"

text \<open>
  The metadata the specification speaks of, read off the mode word bit by bit: bit 27 is
  the symbolic-link flag, bits 6, 3 and 0 are the execute bits of owner, group and other.
\<close>

definition symlinkFlag :: "FileInfo \<Rightarrow> bool" where
  "symlinkFlag file = bit (Mode file) 27"

definition ownerExec :: "FileInfo \<Rightarrow> bool" where
  "ownerExec file = bit (Mode file) 6"

definition groupExec :: "FileInfo \<Rightarrow> bool" where
  "groupExec file = bit (Mode file) 3"

definition otherExec :: "FileInfo \<Rightarrow> bool" where
  "otherExec file = bit (Mode file) 0"

definition anyExec :: "FileInfo \<Rightarrow> bool" where
  "anyExec file = (ownerExec file \<or> groupExec file \<or> otherExec file)"

section \<open>The file system and the process, as the os package sees them\<close>

text \<open>
  The agent's view of the guest: a tree of directories, regular files and symbolic
  links, and the working directory of the process. A directory keeps its entries in the
  order in which the kernel reports them. The agent runs as the guest's init process,
  so permission bits are recorded and never deny it access; the umask is taken as 0.
  A symbolic link is a leaf that cannot be followed: \<open>lstat\<close> sees it, and every call
  that has to resolve it fails with \<open>ELOOP\<close>, as the kernel does for a link that
  points to itself.
\<close>

datatype inode =
    File FileMode string
  | Dir FileMode "(string \<times> inode) list"
  | Symlink string

record world =
  fs :: inode
  cwd :: "string list"

text \<open>\<open>lookup\<close> walks the tree without following a final link (\<open>lstat\<close>); \<open>follow\<close>
  is the walk of \<open>stat\<close>, \<open>open\<close> and \<open>chdir\<close>.\<close>

fun lookup :: "inode \<Rightarrow> string list \<Rightarrow> errno + inode" where
  "lookup n [] = Inr n"
| "lookup (Dir m es) (c # cs) =
     (case map_of es c of None \<Rightarrow> Inl ENOENT | Some n \<Rightarrow> lookup n cs)"
| "lookup (File m d) (c # cs) = Inl ENOTDIR"
| "lookup (Symlink t) (c # cs) = Inl ELOOP"

definition follow :: "inode \<Rightarrow> string list \<Rightarrow> errno + inode" where
  "follow r cs =
     (case lookup r cs of
        Inl e \<Rightarrow> Inl e
      | Inr (Symlink t) \<Rightarrow> Inl ELOOP
      | Inr n \<Rightarrow> Inr n)"

text \<open>\<open>put r cs n\<close> stores \<open>n\<close> at \<open>cs\<close>: it replaces the node there, or adds a new
  last entry to the parent directory.\<close>

fun put :: "inode \<Rightarrow> string list \<Rightarrow> inode \<Rightarrow> inode" where
  "put t [] n = n"
| "put (Dir m es) (c # cs) n =
     (case map_of es c of
        None \<Rightarrow> if cs = [] then Dir m (es @ [(c, n)]) else Dir m es
      | Some t' \<Rightarrow> Dir m (AList.update c (put t' cs n) es))"
| "put (File m d) (c # cs) n = File m d"
| "put (Symlink t) (c # cs) n = Symlink t"

definition pathOf :: "string list \<Rightarrow> string" where
  "pathOf cs = CHR ''/'' # joinSlash cs"

text \<open>
  The elements a path names, from the root. A relative path starts at the working
  directory, which must still exist. Every path that oci.go hands to the os package has
  gone through \<open>Clean\<close>, where walking the elements with \<open>cleanStep\<close> is what the
  kernel does.
\<close>

definition namei :: "world \<Rightarrow> string \<Rightarrow> errno + string list" where
  "namei w p =
     (if p = [] then Inl ENOENT
      else if rooted p then Inr (rev (fold (cleanStep True) (components p) []))
      else
        (case follow (fs w) (cwd w) of
           Inl e \<Rightarrow> Inl e
         | Inr (Dir m es) \<Rightarrow> Inr (rev (fold (cleanStep True) (components p) (rev (cwd w))))
         | Inr _ \<Rightarrow> Inl ENOTDIR))"

text \<open>The name that \<open>os.Stat\<close> reports: trailing slashes are dropped (but not the first
  character of the path), then everything up to the last slash.\<close>

definition basename :: "string \<Rightarrow> string" where
  "basename name =
     (case name of
        [] \<Rightarrow> []
      | c # cs \<Rightarrow>
          let s = c # rev (dropWhile (\<lambda>x. x = CHR ''/'') (rev cs))
          in if s = ''/'' then ''/'' else last (components s))"

fun fileInfo :: "string \<Rightarrow> inode \<Rightarrow> FileInfo" where
  "fileInfo n (File m d) = \<lparr>Name = n, IsDir = False, Mode = m AND ModePerm\<rparr>"
| "fileInfo n (Dir m es) = \<lparr>Name = n, IsDir = True, Mode = ModeDir OR (m AND ModePerm)\<rparr>"
| "fileInfo n (Symlink t) = \<lparr>Name = n, IsDir = False, Mode = ModeSymlink OR ModePerm\<rparr>"

subsection \<open>os.Getwd, os.Stat, os.Chdir\<close>

text \<open>\<open>getcwd\<close> fails with \<open>ENOENT\<close> when the working directory has been removed;
  \<open>os.Getwd\<close> then returns the empty string and the error.\<close>

definition os_Getwd :: "world \<Rightarrow> string \<times> error option" where
  "os_Getwd w =
     (case follow (fs w) (cwd w) of
        Inr (Dir m es) \<Rightarrow> (pathOf (cwd w), None)
      | _ \<Rightarrow> ([], Some (SyscallError ''getwd'' ENOENT)))"

definition os_Stat :: "world \<Rightarrow> string \<Rightarrow> error + FileInfo" where
  "os_Stat w name =
     (case namei w name of
        Inl e \<Rightarrow> Inl (PathError ''stat'' name e)
      | Inr cs \<Rightarrow>
          (case follow (fs w) cs of
             Inl e \<Rightarrow> Inl (PathError ''stat'' name e)
           | Inr n \<Rightarrow> Inr (fileInfo (basename name) n)))"

definition os_Chdir :: "world \<Rightarrow> string \<Rightarrow> error option \<times> world" where
  "os_Chdir w dir =
     (case namei w dir of
        Inl e \<Rightarrow> (Some (PathError ''chdir'' dir e), w)
      | Inr cs \<Rightarrow>
          (case follow (fs w) cs of
             Inl e \<Rightarrow> (Some (PathError ''chdir'' dir e), w)
           | Inr (Dir m es) \<Rightarrow> (None, w\<lparr>cwd := cs\<rparr>)
           | Inr _ \<Rightarrow> (Some (PathError ''chdir'' dir ENOTDIR), w)))"

subsection \<open>os.MkdirAll\<close>

definition mkdirAt :: "inode \<Rightarrow> string list \<Rightarrow> FileMode \<Rightarrow> errno option \<times> inode" where
  "mkdirAt r cs perm =
     (case lookup r cs of
        Inr _ \<Rightarrow> (Some EEXIST, r)
      | Inl _ \<Rightarrow>
          (case follow r (butlast cs) of
             Inl e \<Rightarrow> (Some e, r)
           | Inr (Dir m es) \<Rightarrow> (None, put r cs (Dir (perm AND ModePerm) []))
           | Inr _ \<Rightarrow> (Some ENOTDIR, r)))"

text \<open>
  \<open>os.MkdirAll\<close>: if \<open>Stat\<close> finds the path, succeed on a directory and fail with
  \<open>ENOTDIR\<close> otherwise; else make the parent (when the path has one below the root),
  then \<open>Mkdir\<close> the path, and forgive a failed \<open>Mkdir\<close> when \<open>Lstat\<close> now
  finds a directory. Directories made before a failure stay. The error names the path
  at which it arose.
\<close>

function mkdirAll :: "inode \<Rightarrow> string list \<Rightarrow> FileMode \<Rightarrow> (string list \<times> errno) option \<times> inode" where
  "mkdirAll r cs perm =
     (case follow r cs of
        Inr (Dir m es) \<Rightarrow> (None, r)
      | Inr _ \<Rightarrow> (Some (cs, ENOTDIR), r)
      | Inl _ \<Rightarrow>
          (case (if 1 < length cs then mkdirAll r (butlast cs) perm else (None, r)) of
             (Some err, r') \<Rightarrow> (Some err, r')
           | (None, r') \<Rightarrow>
               (case mkdirAt r' cs perm of
                  (None, r'') \<Rightarrow> (None, r'')
                | (Some e, r'') \<Rightarrow>
                    (case lookup r'' cs of
                       Inr (Dir m es) \<Rightarrow> (None, r'')
                     | _ \<Rightarrow> (Some (cs, e), r'')))))"
  by pat_completeness auto
termination
  by (relation "measure (\<lambda>(r, cs, perm). length cs)") auto

declare mkdirAll.simps [simp del]

definition os_MkdirAll :: "world \<Rightarrow> string \<Rightarrow> FileMode \<Rightarrow> error option \<times> world" where
  "os_MkdirAll w path perm =
     (case namei w path of
        Inl e \<Rightarrow> (Some (PathError ''mkdir'' path e), w)
      | Inr cs \<Rightarrow>
          (case mkdirAll (fs w) cs perm of
             (None, r) \<Rightarrow> (None, w\<lparr>fs := r\<rparr>)
           | (Some (cs', e), r) \<Rightarrow> (Some (PathError ''mkdir'' (pathOf cs') e), w\<lparr>fs := r\<rparr>)))"

subsection \<open>os.OpenFile, File.Write and the JSON encoder\<close>

type_synonym flag = "32 word"

definition O_WRONLY :: flag where
  "O_WRONLY = 0x1"

definition O_RDWR :: flag where
  "O_RDWR = 0x2"

definition O_CREATE :: flag where
  "O_CREATE = 0x40"

definition O_EXCL :: flag where
  "O_EXCL = 0x80"

definition O_TRUNC :: flag where
  "O_TRUNC = 0x200"

definition O_APPEND :: flag where
  "O_APPEND = 0x400"

text \<open>An open file: the node it refers to, the flags it was opened with, and the
  offset of the next write.\<close>

record os_File =
  f_path :: "string list"
  f_flag :: flag
  f_off :: nat

definition writable :: "flag \<Rightarrow> bool" where
  "writable fl = (fl AND (O_WRONLY OR O_RDWR) \<noteq> 0)"

text \<open>
  \<open>open(2)\<close>: an existing regular file is opened at offset 0, and emptied only under
  \<open>O_TRUNC\<close>; a directory cannot be opened for writing; a missing file is created,
  empty and with the given permission bits, only under \<open>O_CREATE\<close> and in an
  existing directory.
\<close>

definition os_OpenFile :: "world \<Rightarrow> string \<Rightarrow> flag \<Rightarrow> FileMode \<Rightarrow> (error + os_File) \<times> world" where
  "os_OpenFile w name fl perm =
     (case namei w name of
        Inl e \<Rightarrow> (Inl (PathError ''open'' name e), w)
      | Inr cs \<Rightarrow>
          (case lookup (fs w) cs of
             Inr (File m d) \<Rightarrow>
               if fl AND O_CREATE \<noteq> 0 \<and> fl AND O_EXCL \<noteq> 0
               then (Inl (PathError ''open'' name EEXIST), w)
               else (Inr \<lparr>f_path = cs, f_flag = fl, f_off = 0\<rparr>,
                     if fl AND O_TRUNC \<noteq> 0 then w\<lparr>fs := put (fs w) cs (File m [])\<rparr> else w)
           | Inr (Dir m es) \<Rightarrow>
               if writable fl then (Inl (PathError ''open'' name EISDIR), w)
               else (Inr \<lparr>f_path = cs, f_flag = fl, f_off = 0\<rparr>, w)
           | Inr (Symlink t) \<Rightarrow> (Inl (PathError ''open'' name ELOOP), w)
           | Inl e \<Rightarrow>
               if fl AND O_CREATE = 0 then (Inl (PathError ''open'' name e), w)
               else
                 (case follow (fs w) (butlast cs) of
                    Inl e' \<Rightarrow> (Inl (PathError ''open'' name e'), w)
                  | Inr (Dir m es) \<Rightarrow>
                      (Inr \<lparr>f_path = cs, f_flag = fl, f_off = 0\<rparr>,
                       w\<lparr>fs := put (fs w) cs (File (perm AND ModePerm) [])\<rparr>)
                  | Inr _ \<Rightarrow> (Inl (PathError ''open'' name ENOTDIR), w))))"

text \<open>
  \<open>write(2)\<close> replaces the bytes from the offset on (from the end of the file under
  \<open>O_APPEND\<close>) and leaves every byte beyond the written ones as it was.
\<close>

definition File_Write :: "world \<Rightarrow> os_File \<Rightarrow> string \<Rightarrow> (nat \<times> error option) \<times> world \<times> os_File" where
  "File_Write w f b =
     (if \<not> writable (f_flag f)
      then ((0, Some (PathError ''write'' (pathOf (f_path f)) EBADF)), w, f)
      else
        (case lookup (fs w) (f_path f) of
           Inr (File m d) \<Rightarrow>
             let off = (if f_flag f AND O_APPEND \<noteq> 0 then length d else f_off f);
                 d' = take off d @ replicate (off - length d) (CHR 0x00) @ b @ drop (off + length b) d
             in ((length b, None),
                 w\<lparr>fs := put (fs w) (f_path f) (File m d')\<rparr>,
                 f\<lparr>f_off := off + length b\<rparr>)
         | _ \<Rightarrow> ((0, Some (PathError ''write'' (pathOf (f_path f)) EBADF)), w, f)))"

text \<open>
  \<open>json.NewEncoder(f).Encode(v)\<close> marshals the value, appends a newline and writes the
  bytes with one \<open>Write\<close>. The marshaller of encoding/json is a parameter here: a
  function from the value to its bytes or an error.
\<close>

definition Encoder_Encode ::
  "('v \<Rightarrow> error + string) \<Rightarrow> world \<Rightarrow> os_File \<Rightarrow> 'v \<Rightarrow> error option \<times> world \<times> os_File" where
  "Encoder_Encode marshal w f v =
     (case marshal v of
        Inl err \<Rightarrow> (Some err, w, f)
      | Inr b \<Rightarrow>
          (case File_Write w f (b @ [CHR 0x0A]) of
             ((n, err), w', f') \<Rightarrow> (err, w', f')))"

subsection \<open>ioutil.ReadDir\<close>

text \<open>
  \<open>ioutil.ReadDir\<close> opens the directory, reads all its entries with \<open>lstat\<close> and
  returns them sorted by file name (\<open>sort.Slice\<close> with \<open>Name() < Name()\<close>, the
  bytewise order of Go strings). The names in a directory are distinct, so the sorted
  list is unique; \<open>sort_key\<close> computes it. A path that is not a directory can be
  opened, and reading entries from it fails with \<open>ENOTDIR\<close>.
\<close>

definition ioutil_ReadDir :: "world \<Rightarrow> string \<Rightarrow> error + FileInfo list" where
  "ioutil_ReadDir w dirname =
     (case namei w dirname of
        Inl e \<Rightarrow> Inl (PathError ''open'' dirname e)
      | Inr cs \<Rightarrow>
          (case follow (fs w) cs of
             Inl e \<Rightarrow> Inl (PathError ''open'' dirname e)
           | Inr (Dir m es) \<Rightarrow> Inr (sort_key Name (map (\<lambda>(n, i). fileInfo n i) es))
           | Inr _ \<Rightarrow> Inl (SyscallError ''readdirent'' ENOTDIR)))"

text \<open>The entries of a directory in the order the kernel reports them, before
  \<open>ioutil.ReadDir\<close> sorts them.\<close>

definition readdirOrder :: "world \<Rightarrow> string \<Rightarrow> FileInfo list" where
  "readdirOrder w dirname =
     (case namei w dirname of
        Inl e \<Rightarrow> []
      | Inr cs \<Rightarrow>
          (case follow (fs w) cs of
             Inr (Dir m es) \<Rightarrow> map (\<lambda>(n, i). fileInfo n i) es
           | _ \<Rightarrow> []))"

subsection \<open>The logger\<close>

text \<open>
  Modelled from the spec: \<open>agentLog\<close>, which is declared outside oci.go, is the event
  sink of the specification, and what reaches it is the list of events in the order in
  which they are logged. \<open>agentLog\<close> is a logrus entry: an event has a level, the
  fields attached with \<open>WithError\<close> (key \<open>error\<close>), \<open>WithField\<close> and
  \<open>WithFields\<close>, and a message.
\<close>

datatype level = InfoLevel | WarnLevel

datatype fieldValue = ErrorValue "error option" | StringValue string

record event =
  ev_level :: level
  ev_fields :: "(string \<times> fieldValue) list"
  ev_msg :: string

text \<open>The decimal digits of a number, for the verb \<open>%d\<close>.\<close>

fun decimal :: "nat \<Rightarrow> string" where
  "decimal n =
     (if n < 10 then [''0123456789'' ! n]
      else decimal (n div 10) @ [''0123456789'' ! (n mod 10)])"

declare decimal.simps [simp del]

section \<open>The OCI types\<close>

text \<open>Of \<open>specs.Spec\<close> the code reads \<open>Root\<close> and, in it, \<open>Path\<close>; a record
  scheme stands for a Spec with any further fields.\<close>

record Root =
  Path :: string
  Readonly :: bool

record Spec =
  Version :: string
  Root :: "Root option"

record Hook =
  Path :: string
  Args :: "string list"
  Env :: "string list"
  Timeout :: "int option"

section \<open>oci.go\<close>

definition ociConfigFile :: string where
  "ociConfigFile = ''config.json''"

definition ociConfigFileMode :: FileMode where
  "ociConfigFileMode = 0x124"

definition ociConfigBasePath :: string where
  "ociConfigBasePath = ''/run/libcontainer''"

text \<open>The octal literals \<open>0444\<close> and \<open>0700\<close> are 0x124 and 0x1C0. The deferred
  \<open>f.Close()\<close> changes nothing in the file system.\<close>

definition writeSpecToFile ::
  "('a Spec_scheme option \<Rightarrow> error + string) \<Rightarrow> world \<Rightarrow> 'a Spec_scheme option \<Rightarrow> string
     \<Rightarrow> error option \<times> world" where
  "writeSpecToFile marshal w spec containerId =
     (let configJsonDir = filepath_Join [ociConfigBasePath, containerId] in
      case os_MkdirAll w configJsonDir 0x1C0 of
        (Some err, w1) \<Rightarrow> (Some err, w1)
      | (None, w1) \<Rightarrow>
          let configPath = filepath_Join [configJsonDir, ociConfigFile] in
          (case os_OpenFile w1 configPath (O_WRONLY OR O_CREATE) ociConfigFileMode of
             (Inl err, w2) \<Rightarrow> (Some err, w2)
           | (Inr f, w2) \<Rightarrow>
               (case Encoder_Encode marshal w2 f spec of
                  (err, w3, f') \<Rightarrow> (err, w3))))"

definition changeToBundlePath ::
  "world \<Rightarrow> 'a Spec_scheme option \<Rightarrow> string \<Rightarrow> (string \<times> error option) \<times> world" where
  "changeToBundlePath w spec containerId =
     (case os_Getwd w of
        (cwd', Some err) \<Rightarrow> ((cwd', Some err), w)
      | (cwd', None) \<Rightarrow>
          (case spec of
             None \<Rightarrow> ((cwd', Some (errors_New ''invalid OCI spec'')), w)
           | Some s \<Rightarrow>
               (case Root s of
                  None \<Rightarrow> ((cwd', Some (errors_New ''invalid OCI spec'')), w)
                | Some root \<Rightarrow>
                    if Root.Path root = [] then ((cwd', Some (errors_New ''invalid OCI spec'')), w)
                    else
                      let bundlePath = filepath_Dir (Root.Path root);
                          configPath = filepath_Join [ociConfigBasePath, containerId, ociConfigFile]
                      in
                        (case os_Stat w configPath of
                           Inl err \<Rightarrow> ((cwd', Some (errors_New ''invalid OCI bundle'')), w)
                         | Inr fi \<Rightarrow>
                             (case os_Chdir w bundlePath of
                                (err, w') \<Rightarrow> ((cwd', err), w'))))))"

text \<open>The loop of \<open>findHooks\<close> over the listed files, with the hooks found and the
  events logged so far.\<close>

fun findHooksLoop ::
  "string \<Rightarrow> string \<Rightarrow> FileInfo list \<Rightarrow> Hook list \<Rightarrow> event list \<Rightarrow> Hook list \<times> event list" where
  "findHooksLoop hooksPath hookType [] hooksFound lg = (hooksFound, lg)"
| "findHooksLoop hooksPath hookType (file # files) hooksFound lg =
     (let name = Name file in
      case isValidHook file of
        (ok, err) \<Rightarrow>
          if \<not> ok then
            findHooksLoop hooksPath hookType files hooksFound
              (lg @ [\<lparr>ev_level = WarnLevel,
                      ev_fields = [(''error'', ErrorValue err), (''oci-hook-name'', StringValue name)],
                      ev_msg = ''Skipping hook''\<rparr>])
          else
            findHooksLoop hooksPath hookType files
              (hooksFound @ [\<lparr>Path = path_Join [hooksPath, name], Args = [name, hookType],
                              Env = [], Timeout = None\<rparr>])
              (lg @ [\<lparr>ev_level = InfoLevel,
                      ev_fields = [(''oci-hook-name'', StringValue name),
                                   (''oci-hook-type'', StringValue hookType)],
                      ev_msg = ''Adding hook''\<rparr>]))"

definition findHooks :: "world \<Rightarrow> string \<Rightarrow> string \<Rightarrow> Hook list \<times> event list" where
  "findHooks w guestHookPath hookType =
     (let hooksPath = path_Join [guestHookPath, hookType] in
      case ioutil_ReadDir w hooksPath of
        Inl err \<Rightarrow>
          ([], [\<lparr>ev_level = InfoLevel,
                 ev_fields = [(''error'', ErrorValue (Some err)),
                              (''oci-hook-type'', StringValue hookType)],
                 ev_msg = ''Skipping hook type''\<rparr>])
      | Inr files \<Rightarrow>
          (case findHooksLoop hooksPath hookType files [] [] of
             (hooksFound, lg) \<Rightarrow>
               (hooksFound,
                lg @ [\<lparr>ev_level = InfoLevel,
                        ev_fields = [(''oci-hook-type'', StringValue hookType)],
                        ev_msg = ''Added '' @ decimal (length hooksFound) @ '' hooks''\<rparr>])))"

section \<open>The vocabulary of the specification\<close>

definition InvalidSpec :: error where
  "InvalidSpec = errors_New ''invalid OCI spec''"

definition InvalidBundle :: error where
  "InvalidBundle = errors_New ''invalid OCI bundle''"

definition CanonicalConfigPath :: "string \<Rightarrow> string" where
  "CanonicalConfigPath containerId = filepath_Join [ociConfigBasePath, containerId, ociConfigFile]"

definition pathExists :: "world \<Rightarrow> string \<Rightarrow> bool" where
  "pathExists w p = (case os_Stat w p of Inl err \<Rightarrow> False | Inr fi \<Rightarrow> True)"

text \<open>A spec has a valid shape when it is present, has a root, and the root's path is
  not empty.\<close>

definition shapeValid :: "'a Spec_scheme option \<Rightarrow> bool" where
  "shapeValid spec =
     (case spec of
        None \<Rightarrow> False
      | Some s \<Rightarrow> (case Root s of None \<Rightarrow> False | Some root \<Rightarrow> Root.Path root \<noteq> []))"

text \<open>The working directory in effect, as a path.\<close>

definition workingDirectory :: "world \<Rightarrow> string" where
  "workingDirectory w = pathOf (cwd w)"

text \<open>The descriptor of an accepted entry, and the event logged for an entry.\<close>

definition hookFor :: "string \<Rightarrow> string \<Rightarrow> FileInfo \<Rightarrow> Hook" where
  "hookFor hooksPath hookType file =
     \<lparr>Path = path_Join [hooksPath, Name file], Args = [Name file, hookType],
      Env = [], Timeout = None\<rparr>"

definition eventFor :: "string \<Rightarrow> FileInfo \<Rightarrow> event" where
  "eventFor hookType file =
     (if fst (isValidHook file)
      then \<lparr>ev_level = InfoLevel,
            ev_fields = [(''oci-hook-name'', StringValue (Name file)),
                         (''oci-hook-type'', StringValue hookType)],
            ev_msg = ''Adding hook''\<rparr>
      else \<lparr>ev_level = WarnLevel,
            ev_fields = [(''error'', ErrorValue (snd (isValidHook file))),
                         (''oci-hook-name'', StringValue (Name file))],
            ev_msg = ''Skipping hook''\<rparr>)"

definition accepted :: "FileInfo \<Rightarrow> bool" where
  "accepted file = fst (isValidHook file)"

text \<open>The file stored at a path, if a regular file is there.\<close>

definition contentAt :: "world \<Rightarrow> string \<Rightarrow> string option" where
  "contentAt w p =
     (case namei w p of
        Inl e \<Rightarrow> None
      | Inr cs \<Rightarrow> (case follow (fs w) cs of Inr (File m d) \<Rightarrow> Some d | _ \<Rightarrow> None))"

section \<open>Cleaned paths\<close>

text \<open>The elements \<open>Clean\<close> keeps: ordinary names, and in a path that is not rooted
  a run of \<open>..\<close> at its start (the bottom of the stack).\<close>

definition normalEl :: "string \<Rightarrow> bool" where
  "normalEl e = (e \<noteq> [] \<and> e \<noteq> ''.'' \<and> e \<noteq> ''..'' \<and> CHR ''/'' \<notin> set e)"

fun okStack :: "bool \<Rightarrow> string list \<Rightarrow> bool" where
  "okStack rt [] = True"
| "okStack rt (e # st) =
     ((normalEl e \<or> (e = ''..'' \<and> \<not> rt \<and> (\<forall>x\<in>set st. x = ''..''))) \<and> okStack rt st)"

section \<open>Concrete file systems, specs and entries\<close>

text \<open>
  What encoding/json produces for a Spec with only \<open>ociVersion\<close> and \<open>root.path\<close>
  set, when the strings need no escaping.
\<close>

definition quoted :: "string \<Rightarrow> string" where
  "quoted s = CHR 0x22 # s @ [CHR 0x22]"

definition marshalPlain :: "Spec option \<Rightarrow> error + string" where
  "marshalPlain spec =
     Inr (case spec of
            None \<Rightarrow> ''null''
          | Some s \<Rightarrow>
              ''{'' @ quoted ''ociVersion'' @ '':'' @ quoted (Version s) @
              (case Root s of
                 None \<Rightarrow> []
               | Some r \<Rightarrow>
                   '','' @ quoted ''root'' @ '':{'' @ quoted ''path'' @ '':'' @
                   quoted (Root.Path r) @ ''}'') @
              ''}'')"

definition specLong :: Spec where
  "specLong = \<lparr>Version = ''1.0.0'',
               Root = Some \<lparr>Root.Path = ''/bundle/rootfs'', Readonly = False\<rparr>\<rparr>"

definition specShort :: Spec where
  "specShort = \<lparr>Version = ''1.0.0'', Root = Some \<lparr>Root.Path = ''/b/r'', Readonly = False\<rparr>\<rparr>"

definition specNoRoot :: Spec where
  "specNoRoot = \<lparr>Version = ''1.0.0'', Root = None\<rparr>"

definition specEmptyPath :: Spec where
  "specEmptyPath = \<lparr>Version = ''1.0.0'', Root = Some \<lparr>Root.Path = [], Readonly = False\<rparr>\<rparr>"

definition specLost :: Spec where
  "specLost = \<lparr>Version = ''1.0.0'',
               Root = Some \<lparr>Root.Path = ''/lost/rootfs'', Readonly = False\<rparr>\<rparr>"

text \<open>A guest with a bundle, a hook directory and no persisted spec.\<close>

definition hookDir :: "(string \<times> inode) list" where
  "hookDir = [(''d'', File 0x1A4 ''data''), (''c'', Symlink ''/bin/true''),
              (''b'', Dir 0x1ED []), (''a'', File 0x1ED ''#!/bin/sh'')]"

definition fsFresh :: inode where
  "fsFresh = Dir 0x1ED
     [(''run'', Dir 0x1ED []),
      (''hooks'', Dir 0x1ED [(''prestart'', Dir 0x1ED hookDir), (''poststop'', File 0x1A4 [])]),
      (''bundle'', Dir 0x1ED [(''rootfs'', Dir 0x1ED [])]),
      (''b'', Dir 0x1ED [(''r'', Dir 0x1ED [])])]"

definition wFresh :: world where
  "wFresh = \<lparr>fs = fsFresh, cwd = [''run'']\<rparr>"

text \<open>The same guest after the spec of container \<open>c1\<close> has been persisted.\<close>

definition fsPersisted :: inode where
  "fsPersisted = Dir 0x1ED
     [(''run'', Dir 0x1ED
        [(''libcontainer'', Dir 0x1C0
           [(''c1'', Dir 0x1C0 [(''config.json'', File 0x124 ''{}'')])])]),
      (''hooks'', Dir 0x1ED [(''prestart'', Dir 0x1ED hookDir), (''poststop'', File 0x1A4 [])]),
      (''bundle'', Dir 0x1ED [(''rootfs'', Dir 0x1ED [])]),
      (''b'', Dir 0x1ED [(''r'', Dir 0x1ED [])])]"

definition wPersisted :: world where
  "wPersisted = \<lparr>fs = fsPersisted, cwd = [''run'']\<rparr>"

text \<open>The bytes that \<open>Encode\<close> writes for a spec: the JSON text and a newline.\<close>

definition encoded :: "Spec \<Rightarrow> string" where
  "encoded spec = (case marshalPlain (Some spec) of Inl err \<Rightarrow> [] | Inr b \<Rightarrow> b @ [CHR 0x0A])"

text \<open>The fresh guest after the spec of \<open>c1\<close> has been written once, and after a
  second spec, with a shorter encoding, has been written for the same id.\<close>

definition wOnce :: world where
  "wOnce = snd (writeSpecToFile marshalPlain wFresh (Some specLong) ''c1'')"

definition wTwice :: world where
  "wTwice = snd (writeSpecToFile marshalPlain wOnce (Some specShort) ''c1'')"

text \<open>Guests whose working directory has been removed.\<close>

definition wGone :: world where
  "wGone = \<lparr>fs = fsFresh, cwd = [''gone'']\<rparr>"

definition wGonePersisted :: world where
  "wGonePersisted = \<lparr>fs = fsPersisted, cwd = [''gone'']\<rparr>"

text \<open>A hook directory that the kernel lists as \<open>zz\<close>, then \<open>aa\<close>.\<close>

definition wUnsorted :: world where
  "wUnsorted = \<lparr>fs = Dir 0x1ED
       [(''hooks'', Dir 0x1ED
          [(''prestart'', Dir 0x1ED [(''zz'', File 0x1ED []), (''aa'', File 0x1ED [])])])],
     cwd = []\<rparr>"

text \<open>The four kinds of entry.\<close>

definition entryExec :: FileInfo where
  "entryExec = \<lparr>Name = ''a'', IsDir = False, Mode = 0x1ED\<rparr>"

definition entryDir :: FileInfo where
  "entryDir = \<lparr>Name = ''b'', IsDir = True, Mode = ModeDir OR 0x1ED\<rparr>"

definition entryLink :: FileInfo where
  "entryLink = \<lparr>Name = ''c'', IsDir = False, Mode = ModeSymlink OR 0x1FF\<rparr>"

definition entryPlain :: FileInfo where
  "entryPlain = \<lparr>Name = ''d'', IsDir = False, Mode = 0x1A4\<rparr>"

text \<open>A directory without execute bits, and a link without execute bits.\<close>

definition entryDirNoExec :: FileInfo where
  "entryDirNoExec = \<lparr>Name = ''e'', IsDir = True, Mode = ModeDir OR 0x180\<rparr>"

definition entryLinkNoExec :: FileInfo where
  "entryLinkNoExec = \<lparr>Name = ''f'', IsDir = False, Mode = ModeSymlink OR 0x1A4\<rparr>"

section \<open>Properties of isValidHook\<close>

lemma symlink_test: "((m :: FileMode) AND ModeSymlink \<noteq> 0) = bit m 27"
  unfolding ModeSymlink_def by (rule bit_iff_and_push_bit_not_eq_0 [symmetric])

lemma exec_mask: "(73 :: FileMode) = 2 ^ 0 OR 2 ^ 3 OR 2 ^ 6"
  by simp

lemma perm_exec_mask: "(ModePerm AND 73 :: FileMode) = 73"
  by (simp add: ModePerm_def)

lemma exec_test:
  "(((m :: FileMode) AND ModePerm) AND 73 = 0) = (\<not> bit m 6 \<and> \<not> bit m 3 \<and> \<not> bit m 0)"
proof -
  have "(m AND ModePerm) AND 73 = m AND 73"
    by (simp add: and.assoc perm_exec_mask)
  also have "\<dots> = (m AND 2 ^ 0) OR (m AND 2 ^ 3) OR (m AND 2 ^ 6)"
    by (simp only: exec_mask bit.conj_disj_distrib)
  finally have "((m AND ModePerm) AND 73 = 0) =
      (m AND 2 ^ 0 = 0 \<and> m AND 2 ^ 3 = 0 \<and> m AND 2 ^ 6 = 0)"
    by (simp only: or_eq_0_iff)
  then show ?thesis
    by (simp only: and_exp_eq_0_iff_not_bit) blast
qed

lemma isValidHook_chain:
  "isValidHook file =
     (if IsDir file then (False, Some NotAFile)
      else if symlinkFlag file then (False, Some IsSymlink)
      else if anyExec file then (True, None)
      else (False, Some NotExecutable))"
  by (simp add: isValidHook_def Let_def symlink_test exec_test NotAFile_def IsSymlink_def
      NotExecutable_def symlinkFlag_def anyExec_def ownerExec_def groupExec_def otherExec_def)

lemma flags_entryExec: "\<not> IsDir entryExec" "\<not> symlinkFlag entryExec" "anyExec entryExec"
  by (simp_all add: entryExec_def symlinkFlag_def anyExec_def ownerExec_def groupExec_def
      otherExec_def)

lemma flags_entryDir: "IsDir entryDir"
  by (simp add: entryDir_def)

lemma flags_entryLink: "\<not> IsDir entryLink" "symlinkFlag entryLink"
  by (simp_all add: entryLink_def symlinkFlag_def ModeSymlink_def bit_or_iff)

lemma flags_entryPlain: "\<not> IsDir entryPlain" "\<not> symlinkFlag entryPlain" "\<not> anyExec entryPlain"
  by (simp_all add: entryPlain_def symlinkFlag_def anyExec_def ownerExec_def groupExec_def
      otherExec_def)

lemma flags_entryDirNoExec: "IsDir entryDirNoExec" "\<not> anyExec entryDirNoExec"
  by (simp_all add: entryDirNoExec_def anyExec_def ownerExec_def groupExec_def otherExec_def
      ModeDir_def bit_or_iff)

lemma flags_entryLinkNoExec:
  "\<not> IsDir entryLinkNoExec" "symlinkFlag entryLinkNoExec" "\<not> anyExec entryLinkNoExec"
  by (simp_all add: entryLinkNoExec_def symlinkFlag_def anyExec_def ownerExec_def groupExec_def
      otherExec_def ModeSymlink_def bit_or_iff)

text \<open>
  Claim C4. The validator rejects every directory, with reason NotAFile; it rejects
  every symbolic link, with reason IsSymlink when the entry is not a directory; it
  rejects every entry that has no execute bit for owner, group or other, with reason
  NotExecutable when the entry is neither a directory nor a link; it accepts every other
  entry, with no error.
\<close>

theorem isValidHook_verdicts:
  "(IsDir file \<longrightarrow> isValidHook file = (False, Some NotAFile)) \<and>
   (symlinkFlag file \<longrightarrow> \<not> fst (isValidHook file) \<and>
      (\<not> IsDir file \<longrightarrow> isValidHook file = (False, Some IsSymlink))) \<and>
   (\<not> anyExec file \<longrightarrow> \<not> fst (isValidHook file) \<and>
      (\<not> IsDir file \<and> \<not> symlinkFlag file \<longrightarrow> isValidHook file = (False, Some NotExecutable))) \<and>
   (\<not> IsDir file \<and> \<not> symlinkFlag file \<and> anyExec file \<longrightarrow> isValidHook file = (True, None))"
  by (simp add: isValidHook_chain)

theorem isValidHook_verdicts_witness:
  "isValidHook entryDir = (False, Some NotAFile) \<and>
   isValidHook entryLink = (False, Some IsSymlink) \<and>
   isValidHook entryPlain = (False, Some NotExecutable) \<and>
   isValidHook entryExec = (True, None)"
  using isValidHook_verdicts [of entryExec] isValidHook_verdicts [of entryDir]
    isValidHook_verdicts [of entryLink] isValidHook_verdicts [of entryPlain]
  by (simp add: flags_entryExec flags_entryDir flags_entryLink flags_entryPlain)

text \<open>
  Claim C10. The checks have a fixed precedence: directory first, then symbolic link,
  then execute bits. So a link without execute bits is rejected as IsSymlink, and a
  directory without execute bits as NotAFile.
\<close>

theorem isValidHook_precedence:
  "isValidHook file =
     (if IsDir file then (False, Some NotAFile)
      else if symlinkFlag file then (False, Some IsSymlink)
      else if \<not> anyExec file then (False, Some NotExecutable)
      else (True, None)) \<and>
   (\<not> IsDir file \<and> symlinkFlag file \<and> \<not> anyExec file \<longrightarrow>
      isValidHook file = (False, Some IsSymlink)) \<and>
   (IsDir file \<and> \<not> anyExec file \<longrightarrow> isValidHook file = (False, Some NotAFile))"
  by (simp add: isValidHook_chain)

theorem isValidHook_precedence_witness:
  "isValidHook entryLinkNoExec = (False, Some IsSymlink) \<and>
   isValidHook entryDirNoExec = (False, Some NotAFile)"
  using isValidHook_precedence [of entryLinkNoExec] isValidHook_precedence [of entryDirNoExec]
  by (simp add: flags_entryLinkNoExec flags_entryDirNoExec)

section \<open>Properties of Clean and Join\<close>

lemma components_not_Nil: "components p \<noteq> []"
  by (induction p) (auto split: list.splits)

lemma components_append: "components (xs @ CHR ''/'' # ys) = components xs @ components ys"
proof (induction xs)
  case Nil
  show ?case by simp
next
  case (Cons x xs)
  show ?case
  proof (cases "components xs")
    case Nil
    with components_not_Nil show ?thesis by blast
  next
    case (Cons c cs)
    with Cons.IH show ?thesis by simp
  qed
qed

lemma components_noslash: "\<forall>e\<in>set (components p). CHR ''/'' \<notin> set e"
  by (induction p) (auto split: list.splits)

lemma components_of_noslash: "CHR ''/'' \<notin> set e \<Longrightarrow> components e = [e]"
  by (induction e) auto

lemma components_joinSlash:
  "E \<noteq> [] \<Longrightarrow> \<forall>e\<in>set E. CHR ''/'' \<notin> set e \<Longrightarrow> components (joinSlash E) = E"
proof (induction E rule: joinSlash.induct)
  case 1
  then show ?case by simp
next
  case (2 x)
  then show ?case by (simp add: components_of_noslash)
next
  case (3 x y ys)
  then show ?case by (simp add: components_append components_of_noslash)
qed

lemma okStack_step:
  "okStack rt st \<Longrightarrow> CHR ''/'' \<notin> set e \<Longrightarrow> okStack rt (cleanStep rt e st)"
  by (cases st) (auto simp: cleanStep_def normalEl_def)

lemma okStack_fold:
  "okStack rt st \<Longrightarrow> \<forall>e\<in>set xs. CHR ''/'' \<notin> set e \<Longrightarrow> okStack rt (fold (cleanStep rt) xs st)"
  by (induction xs arbitrary: st) (auto simp: okStack_step)

lemma okStack_noslash: "okStack rt st \<Longrightarrow> \<forall>e\<in>set st. CHR ''/'' \<notin> set e"
  by (induction st) (auto simp: normalEl_def)

lemma okStack_nonempty: "okStack rt st \<Longrightarrow> \<forall>e\<in>set st. e \<noteq> []"
  by (induction st) (auto simp: normalEl_def)

lemma fold_rev_okStack: "okStack rt S \<Longrightarrow> fold (cleanStep rt) (rev S) [] = S"
proof (induction S)
  case Nil
  show ?case by simp
next
  case (Cons e S)
  then have "fold (cleanStep rt) (rev (e # S)) [] = cleanStep rt e S"
    by simp
  also have "\<dots> = e # S"
    using Cons.prems by (cases S) (auto simp: cleanStep_def normalEl_def)
  finally show ?case .
qed

lemma okStack_components: "okStack rt (fold (cleanStep rt) (components p) [])"
  by (rule okStack_fold) (simp_all add: components_noslash)

lemma rooted_append: "p \<noteq> [] \<Longrightarrow> rooted (p @ q) = rooted p"
  by (cases p) (simp_all add: rooted_def)

lemma joinSlash_hd: "E \<noteq> [] \<Longrightarrow> hd E \<noteq> [] \<Longrightarrow> joinSlash E \<noteq> [] \<and> hd (joinSlash E) = hd (hd E)"
  by (induction E rule: joinSlash.induct) auto

lemma Clean_not_Nil: "Clean p \<noteq> []"
proof -
  have "joinSlash E \<noteq> []" if "E \<noteq> []" "\<forall>e\<in>set E. e \<noteq> []" for E
    using that joinSlash_hd [of E] by (cases E) auto
  moreover have "\<forall>e\<in>set (cleanElems False p). e \<noteq> []"
    using okStack_nonempty [OF okStack_components [of False p]] by (simp add: cleanElems_def)
  ultimately show ?thesis
    by (auto simp: Clean_def split: list.splits)
qed

lemma rooted_Clean: "p \<noteq> [] \<Longrightarrow> rooted (Clean p) = rooted p"
proof (cases "rooted p")
  case True
  assume "p \<noteq> []"
  with True show ?thesis by (simp add: Clean_def rooted_def)
next
  case False
  assume ne: "p \<noteq> []"
  let ?E = "cleanElems False p"
  have ok: "okStack False (rev ?E)"
    using okStack_components [of False p] by (simp add: cleanElems_def)
  show ?thesis
  proof (cases ?E)
    case Nil
    with False ne show ?thesis by (simp add: Clean_def rooted_def)
  next
    case (Cons e es)
    have "e \<noteq> []" "CHR ''/'' \<notin> set e"
      using okStack_nonempty [OF ok] okStack_noslash [OF ok] Cons by auto
    then have "hd e \<noteq> CHR ''/''" by (cases e) auto
    moreover have "joinSlash ?E \<noteq> [] \<and> hd (joinSlash ?E) = hd e"
      using joinSlash_hd [of ?E] Cons \<open>e \<noteq> []\<close> by simp
    ultimately have "\<not> rooted (joinSlash ?E)"
      by (cases "joinSlash ?E") (auto simp: rooted_def)
    with False ne Cons show ?thesis by (simp add: Clean_def)
  qed
qed

lemma fold_components_Clean:
  assumes "p \<noteq> []"
  shows "fold (cleanStep (rooted p)) (components (Clean p)) [] =
         fold (cleanStep (rooted p)) (components p) []"
proof -
  let ?rt = "rooted p"
  let ?S = "fold (cleanStep ?rt) (components p) []"
  have ok: "okStack ?rt ?S" by (rule okStack_components)
  have ns: "\<forall>e\<in>set (rev ?S). CHR ''/'' \<notin> set e"
    using okStack_noslash [OF ok] by simp
  have body: "fold (cleanStep ?rt) (components (joinSlash (rev ?S))) [] = ?S" if "?S \<noteq> []"
  proof -
    have "components (joinSlash (rev ?S)) = rev ?S"
      using that ns by (intro components_joinSlash) simp_all
    then show ?thesis by (simp add: fold_rev_okStack [OF ok])
  qed
  show ?thesis
  proof (cases ?rt)
    case True
    then have "Clean p = CHR ''/'' # joinSlash (rev ?S)"
      using assms by (simp add: Clean_def cleanElems_def)
    then have "components (Clean p) = [] # components (joinSlash (rev ?S))"
      by simp
    then have "fold (cleanStep ?rt) (components (Clean p)) [] =
               fold (cleanStep ?rt) (components (joinSlash (rev ?S))) []"
      by (simp add: cleanStep_def)
    also have "\<dots> = ?S"
    proof (cases "?S = []")
      case True
      then show ?thesis by (simp add: cleanStep_def)
    next
      case False
      then show ?thesis by (rule body)
    qed
    finally show ?thesis .
  next
    case False
    show ?thesis
    proof (cases "?S = []")
      case True
      with False assms have "Clean p = ''.''"
        by (simp add: Clean_def cleanElems_def)
      with True show ?thesis by (simp add: cleanStep_def)
    next
      case nonempty: False
      with False assms have "Clean p = joinSlash (rev ?S)"
        by (simp add: Clean_def cleanElems_def split: list.splits)
      with body [OF nonempty] show ?thesis by simp
    qed
  qed
qed

lemma Clean_cases:
  "s \<noteq> [] \<Longrightarrow> rooted s = rt \<Longrightarrow>
   Clean s = (if rt then CHR ''/'' # joinSlash (cleanElems rt s)
              else (case cleanElems rt s of [] \<Rightarrow> ''.'' | e # es \<Rightarrow> joinSlash (e # es)))"
  by (auto simp: Clean_def split: list.splits)

lemma Clean_Clean_append:
  assumes "p \<noteq> []"
  shows "Clean (Clean p @ CHR ''/'' # q) = Clean (p @ CHR ''/'' # q)"
proof -
  let ?rt = "rooted p"
  let ?l = "Clean p @ CHR ''/'' # q" and ?r = "p @ CHR ''/'' # q"
  have rl: "rooted ?l = ?rt" and rr: "rooted ?r = ?rt"
    using assms by (simp_all add: rooted_append Clean_not_Nil rooted_Clean)
  have eq: "cleanElems ?rt ?l = cleanElems ?rt ?r"
    using fold_components_Clean [OF assms] by (simp add: cleanElems_def components_append)
  have "Clean ?l = (if ?rt then CHR ''/'' # joinSlash (cleanElems ?rt ?l)
              else (case cleanElems ?rt ?l of [] \<Rightarrow> ''.'' | e # es \<Rightarrow> joinSlash (e # es)))"
    by (rule Clean_cases) (simp_all add: rl)
  also have "\<dots> = (if ?rt then CHR ''/'' # joinSlash (cleanElems ?rt ?r)
              else (case cleanElems ?rt ?r of [] \<Rightarrow> ''.'' | e # es \<Rightarrow> joinSlash (e # es)))"
    by (simp only: eq)
  also have "\<dots> = Clean ?r"
    by (rule Clean_cases [symmetric]) (simp_all add: rr)
  finally show ?thesis .
qed

lemma path_Join_nested:
  assumes "z \<noteq> []"
  shows "path_Join [path_Join [x, y], z] = path_Join [x, y, z]"
proof (cases "x = []")
  case False
  then have "path_Join [x, y] = Clean (x @ CHR ''/'' # y)"
    by (simp add: path_Join_def)
  then have "path_Join [path_Join [x, y], z] = Clean (Clean (x @ CHR ''/'' # y) @ CHR ''/'' # z)"
    by (simp add: path_Join_def Clean_not_Nil)
  also have "\<dots> = Clean ((x @ CHR ''/'' # y) @ CHR ''/'' # z)"
    by (rule Clean_Clean_append) simp
  also have "\<dots> = path_Join [x, y, z]"
    using False by (simp add: path_Join_def)
  finally show ?thesis .
next
  case True
  show ?thesis
  proof (cases "y = []")
    case True
    with \<open>x = []\<close> assms show ?thesis by (simp add: path_Join_def)
  next
    case False
    then have "path_Join [path_Join [x, y], z] = Clean (Clean y @ CHR ''/'' # z)"
      using \<open>x = []\<close> by (simp add: path_Join_def Clean_not_Nil)
    also have "\<dots> = Clean (y @ CHR ''/'' # z)"
      using False by (rule Clean_Clean_append)
    also have "\<dots> = path_Join [x, y, z]"
      using False \<open>x = []\<close> by (simp add: path_Join_def)
    finally show ?thesis .
  qed
qed


section \<open>Properties of findHooks\<close>

lemma findHooksLoop_eq:
  "findHooksLoop hooksPath hookType files hooksFound lg =
     (hooksFound @ map (hookFor hooksPath hookType) (filter accepted files),
      lg @ map (eventFor hookType) files)"
  by (induction files arbitrary: hooksFound lg)
     (simp_all add: Let_def hookFor_def eventFor_def accepted_def split: prod.splits)

lemma ReadDir_sorted:
  "ioutil_ReadDir w dirname = Inr files \<Longrightarrow> files = sort_key Name (readdirOrder w dirname)"
  by (auto simp: ioutil_ReadDir_def readdirOrder_def split: sum.splits inode.splits)

lemma ReadDir_of_readdirOrder:
  "readdirOrder w dirname \<noteq> [] \<Longrightarrow>
   ioutil_ReadDir w dirname = Inr (sort_key Name (readdirOrder w dirname))"
  by (auto simp: ioutil_ReadDir_def readdirOrder_def split: sum.splits inode.splits)

lemma findHooks_listed:
  assumes "ioutil_ReadDir w (path_Join [guestHookPath, hookType]) = Inr files"
  shows "findHooks w guestHookPath hookType =
           (map (hookFor (path_Join [guestHookPath, hookType]) hookType) (filter accepted files),
            map (eventFor hookType) files @
            [\<lparr>ev_level = InfoLevel,
              ev_fields = [(''oci-hook-type'', StringValue hookType)],
              ev_msg = ''Added '' @ decimal (length (filter accepted files)) @ '' hooks''\<rparr>])"
  using assms by (simp add: findHooks_def findHooksLoop_eq Let_def)

lemma accepted_File: "accepted (fileInfo n (File m d)) = (m AND 73 \<noteq> 0)"
proof -
  have "(m AND ModePerm) AND ModePerm = m AND ModePerm"
    by (simp add: and.assoc)
  moreover have "(m AND ModePerm) AND ModeSymlink = 0"
    by (simp add: and.assoc ModePerm_def ModeSymlink_def)
  moreover have "(m AND ModePerm) AND 73 = m AND 73"
    by (simp add: and.assoc ModePerm_def)
  ultimately show ?thesis
    by (simp add: accepted_def isValidHook_def Let_def)
qed

lemma accepted_Dir: "\<not> accepted (fileInfo n (Dir m es))"
  by (simp add: accepted_def isValidHook_def)

lemma accepted_Symlink: "\<not> accepted (fileInfo n (Symlink t))"
proof -
  have "(ModeSymlink OR ModePerm) AND ModeSymlink \<noteq> 0"
    by (simp add: ModePerm_def ModeSymlink_def)
  then show ?thesis
    by (simp add: accepted_def isValidHook_def Let_def)
qed


text \<open>
  Claim C8. When the hook-type directory cannot be listed, findHooks returns no hooks
  and logs exactly one event, the listing failure. It has no error result.
\<close>

theorem findHooks_unlistable:
  assumes "ioutil_ReadDir w (path_Join [guestHookPath, hookType]) = Inl err"
  shows "findHooks w guestHookPath hookType =
           ([], [\<lparr>ev_level = InfoLevel,
                   ev_fields = [(''error'', ErrorValue (Some err)),
                                (''oci-hook-type'', StringValue hookType)],
                   ev_msg = ''Skipping hook type''\<rparr>])"
  using assms by (simp add: findHooks_def)

theorem findHooks_unlistable_witness:
  "findHooks wFresh ''/hooks'' ''poststart'' =
     ([], [\<lparr>ev_level = InfoLevel,
             ev_fields = [(''error'', ErrorValue (Some (PathError ''open'' ''/hooks/poststart'' ENOENT))),
                          (''oci-hook-type'', StringValue ''poststart'')],
             ev_msg = ''Skipping hook type''\<rparr>]) \<and>
   findHooks wFresh ''/hooks'' ''poststop'' =
     ([], [\<lparr>ev_level = InfoLevel,
             ev_fields = [(''error'', ErrorValue (Some (SyscallError ''readdirent'' ENOTDIR))),
                          (''oci-hook-type'', StringValue ''poststop'')],
             ev_msg = ''Skipping hook type''\<rparr>])"
proof -
  have a: "ioutil_ReadDir wFresh (path_Join [''/hooks'', ''poststart'']) =
             Inl (PathError ''open'' ''/hooks/poststart'' ENOENT)"
    by code_simp
  have b: "ioutil_ReadDir wFresh (path_Join [''/hooks'', ''poststop'']) =
             Inl (SyscallError ''readdirent'' ENOTDIR)"
    by code_simp
  show ?thesis
    using findHooks_unlistable [OF a] findHooks_unlistable [OF b] by simp
qed


text \<open>
  Claim C3, as amended. findHooks emits the descriptors, and logs the entries, in the
  order of the list that ioutil.ReadDir returns, without sorting of its own; that list
  is the directory's entries sorted by file name.
\<close>

theorem findHooks_listing_order:
  assumes "ioutil_ReadDir w (path_Join [guestHookPath, hookType]) = Inr files"
  shows "fst (findHooks w guestHookPath hookType) =
           map (hookFor (path_Join [guestHookPath, hookType]) hookType) (filter accepted files) \<and>
         butlast (snd (findHooks w guestHookPath hookType)) = map (eventFor hookType) files \<and>
         files = sort_key Name (readdirOrder w (path_Join [guestHookPath, hookType]))"
  using ReadDir_sorted [OF assms]
  by (simp add: findHooks_listed [OF assms])


theorem findHooks_listing_order_witness:
  "fst (findHooks wUnsorted ''/hooks'' ''prestart'') =
     [hookFor ''/hooks/prestart'' ''prestart'' \<lparr>Name = ''aa'', IsDir = False, Mode = 0x1ED\<rparr>,
      hookFor ''/hooks/prestart'' ''prestart'' \<lparr>Name = ''zz'', IsDir = False, Mode = 0x1ED\<rparr>]"
proof -
  have l: "ioutil_ReadDir wUnsorted (path_Join [''/hooks'', ''prestart'']) =
      Inr [\<lparr>Name = ''aa'', IsDir = False, Mode = 0x1ED\<rparr>,
           \<lparr>Name = ''zz'', IsDir = False, Mode = 0x1ED\<rparr>]"
    by code_simp
  have p: "path_Join [''/hooks'', ''prestart''] = ''/hooks/prestart''"
    by code_simp
  have a: "accepted \<lparr>Name = ''aa'', IsDir = False, Mode = 0x1ED\<rparr>"
    "accepted \<lparr>Name = ''zz'', IsDir = False, Mode = 0x1ED\<rparr>"
    by code_simp+
  show ?thesis
    using findHooks_listing_order [OF l] by (simp add: p a)
qed

text \<open>
  Claim C3 as stated fails: the kernel lists \<open>zz\<close> before \<open>aa\<close>, and the descriptors
  come out as \<open>aa\<close>, then \<open>zz\<close>.
\<close>

theorem findHooks_os_order_counterexample:
  "map Name (readdirOrder wUnsorted (path_Join [''/hooks'', ''prestart''])) = [''zz'', ''aa''] \<and>
   map Hook.Path (fst (findHooks wUnsorted ''/hooks'' ''prestart'')) =
     [''/hooks/prestart/aa'', ''/hooks/prestart/zz''] \<and>
   map Args (fst (findHooks wUnsorted ''/hooks'' ''prestart'')) =
     [[''aa'', ''prestart''], [''zz'', ''prestart'']]"
  by code_simp


text \<open>
  Claim C5. When \<open>prestart/\<close> holds exactly an executable regular file \<open>a\<close>, a
  directory \<open>b\<close>, a symbolic link \<open>c\<close> and a regular file \<open>d\<close> without execute
  bits, in any order, findHooks returns exactly one descriptor, with path
  \<open>root/prestart/a\<close> and arguments \<open>a\<close>, \<open>prestart\<close>.
\<close>

theorem findHooks_prestart_example:
  assumes listing: "mset (readdirOrder w (path_Join [root, ''prestart''])) =
      {#fileInfo ''a'' (File ma da), fileInfo ''b'' (Dir mb eb),
        fileInfo ''c'' (Symlink t), fileInfo ''d'' (File md dd)#}"
    and exec_a: "ma AND 73 \<noteq> 0"
    and noexec_d: "md AND 73 = 0"
  shows "fst (findHooks w root ''prestart'') =
           [\<lparr>Path = path_Join [root, ''prestart'', ''a''], Args = [''a'', ''prestart''],
             Env = [], Timeout = None\<rparr>]"
proof -
  let ?hp = "path_Join [root, ''prestart'']"
  let ?os = "readdirOrder w ?hp"
  from listing have "?os \<noteq> []" by auto
  then have rd: "ioutil_ReadDir w ?hp = Inr (sort_key Name ?os)"
    by (rule ReadDir_of_readdirOrder)
  have "mset (filter accepted (sort_key Name ?os)) = {#fileInfo ''a'' (File ma da)#}"
    using exec_a noexec_d
    by (simp add: listing accepted_File accepted_Dir accepted_Symlink del: fileInfo.simps)
  then have "filter accepted (sort_key Name ?os) = [fileInfo ''a'' (File ma da)]"
    by (simp only: mset_single_iff)
  then have "fst (findHooks w root ''prestart'') =
      [hookFor ?hp ''prestart'' (fileInfo ''a'' (File ma da))]"
    by (simp add: findHooks_listed [OF rd])
  moreover have "path_Join [?hp, ''a''] = path_Join [root, ''prestart'', ''a'']"
    by (rule path_Join_nested) simp
  ultimately show ?thesis
    by (simp add: hookFor_def)
qed

theorem findHooks_prestart_example_witness:
  "fst (findHooks wFresh ''/hooks'' ''prestart'') =
     [\<lparr>Path = ''/hooks/prestart/a'', Args = [''a'', ''prestart''], Env = [], Timeout = None\<rparr>]"
proof -
  have l: "mset (readdirOrder wFresh (path_Join [''/hooks'', ''prestart''])) =
      {#fileInfo ''a'' (File 0x1ED ''#!/bin/sh''), fileInfo ''b'' (Dir 0x1ED []),
        fileInfo ''c'' (Symlink ''/bin/true''), fileInfo ''d'' (File 0x1A4 ''data'')#}"
    by code_simp
  have p: "path_Join [''/hooks'', ''prestart'', ''a''] = ''/hooks/prestart/a''"
    by code_simp
  show ?thesis
    using findHooks_prestart_example [OF l] by (simp add: p)
qed


section \<open>Properties of changeToBundlePath\<close>

lemma getwd_cases:
  "os_Getwd w = (workingDirectory w, None) \<or> os_Getwd w = ([], Some (SyscallError ''getwd'' ENOENT))"
  by (simp add: os_Getwd_def workingDirectory_def split: sum.splits inode.splits)

lemma chdir_error:
  "os_Chdir w dir = (Some err, w') \<Longrightarrow> w' = w \<and> (\<exists>e. err = PathError ''chdir'' dir e)"
  by (auto simp: os_Chdir_def split: sum.splits inode.splits)


text \<open>In each outcome other than a failed os.Getwd the string returned is the working
  directory in effect at the call.\<close>

lemma changeToBundlePath_listed_outcomes:
  assumes "changeToBundlePath w spec containerId = ((dir, err), w')"
    and "err = None \<or> err = Some InvalidSpec \<or> err = Some InvalidBundle \<or>
         (\<exists>p e. err = Some (PathError ''chdir'' p e))"
  shows "dir = workingDirectory w"
proof -
  from getwd_cases [of w] show ?thesis
  proof
    assume "os_Getwd w = (workingDirectory w, None)"
    with assms(1) show ?thesis
      by (auto simp: changeToBundlePath_def Let_def split: option.splits sum.splits if_splits prod.splits)
  next
    assume "os_Getwd w = ([], Some (SyscallError ''getwd'' ENOENT))"
    with assms(1) have "err = Some (SyscallError ''getwd'' ENOENT)"
      by (simp add: changeToBundlePath_def)
    with assms(2) show ?thesis
      by (auto simp: InvalidSpec_def InvalidBundle_def)
  qed
qed

lemma chdir_outcome:
  "os_Chdir w dir = (err, w') \<Longrightarrow> err = None \<or> (\<exists>e. err = Some (PathError ''chdir'' dir e))"
  by (auto simp: os_Chdir_def split: sum.splits inode.splits)

text \<open>
  Claim C7, as amended. When os.Getwd succeeds, the string returned is the working
  directory in effect at the call, and the outcome is success, InvalidSpec,
  InvalidBundle or a failed chdir. When os.Getwd fails, the string returned is empty,
  the error is that of os.Getwd, and the working directory is left as it is.
\<close>

theorem changeToBundlePath_returns_cwd:
  "(os_Getwd w = (dir, None) \<longrightarrow>
      fst (fst (changeToBundlePath w spec containerId)) = workingDirectory w \<and>
      (snd (fst (changeToBundlePath w spec containerId)) = None \<or>
       snd (fst (changeToBundlePath w spec containerId)) = Some InvalidSpec \<or>
       snd (fst (changeToBundlePath w spec containerId)) = Some InvalidBundle \<or>
       (\<exists>p e. snd (fst (changeToBundlePath w spec containerId)) = Some (PathError ''chdir'' p e)))) \<and>
   (os_Getwd w = (dir, Some err) \<longrightarrow>
      dir = [] \<and> changeToBundlePath w spec containerId = (([], Some err), w))"
proof (intro conjI impI)
  assume g: "os_Getwd w = (dir, None)"
  with getwd_cases [of w] have d: "dir = workingDirectory w" by auto
  with g show "fst (fst (changeToBundlePath w spec containerId)) = workingDirectory w"
    by (auto simp: changeToBundlePath_def Let_def split: option.splits sum.splits prod.splits)
  from g show "snd (fst (changeToBundlePath w spec containerId)) = None \<or>
       snd (fst (changeToBundlePath w spec containerId)) = Some InvalidSpec \<or>
       snd (fst (changeToBundlePath w spec containerId)) = Some InvalidBundle \<or>
       (\<exists>p e. snd (fst (changeToBundlePath w spec containerId)) = Some (PathError ''chdir'' p e))"
    by (auto simp: changeToBundlePath_def Let_def InvalidSpec_def InvalidBundle_def
        split: option.splits sum.splits prod.splits dest: chdir_outcome)
next
  assume g: "os_Getwd w = (dir, Some err)"
  with getwd_cases [of w] show "dir = []" by auto
  with g show "changeToBundlePath w spec containerId = (([], Some err), w)"
    by (simp add: changeToBundlePath_def)
qed

theorem changeToBundlePath_returns_cwd_witness:
  "fst (fst (changeToBundlePath wPersisted (Some specLong) ''c1'')) = ''/run'' \<and>
   fst (fst (changeToBundlePath wPersisted (Some specNoRoot) ''c1'')) = ''/run'' \<and>
   fst (fst (changeToBundlePath wFresh (Some specLong) ''c1'')) = ''/run'' \<and>
   fst (fst (changeToBundlePath wPersisted (Some specLost) ''c1'')) = ''/run'' \<and>
   changeToBundlePath wGone (Some specLong) ''c1'' =
     (([], Some (SyscallError ''getwd'' ENOENT)), wGone)"
proof -
  have g: "os_Getwd wPersisted = (''/run'', None)" "os_Getwd wFresh = (''/run'', None)"
    "os_Getwd wGone = ([], Some (SyscallError ''getwd'' ENOENT))"
    by code_simp+
  have d: "workingDirectory wPersisted = ''/run''" "workingDirectory wFresh = ''/run''"
    by code_simp+
  show ?thesis
    using changeToBundlePath_returns_cwd [of wPersisted "''/run''" "Some specLong" "''c1''"]
      changeToBundlePath_returns_cwd [of wPersisted "''/run''" "Some specNoRoot" "''c1''"]
      changeToBundlePath_returns_cwd [of wFresh "''/run''" "Some specLong" "''c1''"]
      changeToBundlePath_returns_cwd [of wPersisted "''/run''" "Some specLost" "''c1''"]
      changeToBundlePath_returns_cwd [where w = wGone and dir = "[]"
        and err = "SyscallError ''getwd'' ENOENT" and spec = "Some specLong"
        and containerId = "''c1''"]
    by (simp add: g d)
qed

text \<open>
  Claim C7 as stated fails: the working directory \<open>/gone\<close> has been removed, os.Getwd
  fails, and the string returned is empty.
\<close>

theorem changeToBundlePath_returns_cwd_counterexample:
  "workingDirectory wGone = ''/gone'' \<and>
   fst (fst (changeToBundlePath wGone (Some specLong) ''c1'')) = [] \<and>
   fst (fst (changeToBundlePath wGone (Some specLong) ''c1'')) \<noteq> workingDirectory wGone"
  by code_simp


text \<open>
  Claim C1, as amended. With a spec of valid shape and no file at the canonical config
  path, changeToBundlePath leaves the working directory as it is, and signals
  InvalidBundle provided os.Getwd succeeds; when os.Getwd fails it returns that error.
\<close>

theorem changeToBundlePath_missing_config:
  assumes "shapeValid spec" and "\<not> pathExists w (CanonicalConfigPath containerId)"
  shows "snd (changeToBundlePath w spec containerId) = w \<and>
         (os_Getwd w = (dir, None) \<longrightarrow>
            fst (changeToBundlePath w spec containerId) = (dir, Some InvalidBundle)) \<and>
         (os_Getwd w = (dir, Some err) \<longrightarrow>
            fst (changeToBundlePath w spec containerId) = (dir, Some err))"
  using assms
  by (auto simp: changeToBundlePath_def shapeValid_def pathExists_def CanonicalConfigPath_def
      InvalidBundle_def Let_def split: option.splits sum.splits prod.splits)


theorem changeToBundlePath_missing_config_witness:
  "changeToBundlePath wFresh (Some specLong) ''c1'' = ((''/run'', Some InvalidBundle), wFresh) \<and>
   changeToBundlePath wGone (Some specLong) ''c1'' =
     (([], Some (SyscallError ''getwd'' ENOENT)), wGone)"
proof -
  have v: "shapeValid (Some specLong)"
    by code_simp
  have n: "\<not> pathExists wFresh (CanonicalConfigPath ''c1'')"
    "\<not> pathExists wGone (CanonicalConfigPath ''c1'')"
    by code_simp+
  have g: "os_Getwd wFresh = (''/run'', None)"
    "os_Getwd wGone = ([], Some (SyscallError ''getwd'' ENOENT))"
    by code_simp+
  show ?thesis
    using changeToBundlePath_missing_config [OF v n(1), of "''/run''"]
      changeToBundlePath_missing_config [OF v n(2), of "[]" "SyscallError ''getwd'' ENOENT"]
    by (simp add: g prod_eq_iff)
qed

text \<open>
  Claim C1 as stated fails: no spec is persisted for \<open>c1\<close>, the spec has a valid
  shape, the working directory has been removed, and the error is that of os.Getwd.
\<close>

theorem changeToBundlePath_missing_config_counterexample:
  "shapeValid (Some specLong) \<and>
   \<not> pathExists wGone (CanonicalConfigPath ''c1'') \<and>
   changeToBundlePath wGone (Some specLong) ''c1'' =
     (([], Some (SyscallError ''getwd'' ENOENT)), wGone) \<and>
   SyscallError ''getwd'' ENOENT \<noteq> InvalidBundle"
  by code_simp

text \<open>
  Claim C6, as amended. With a spec that is absent, has no root or has an empty root
  path, changeToBundlePath leaves the working directory as it is, whether or not a
  config file is persisted, and signals InvalidSpec provided os.Getwd succeeds; when
  os.Getwd fails it returns that error.
\<close>

theorem changeToBundlePath_invalid_spec:
  assumes "\<not> shapeValid spec"
  shows "snd (changeToBundlePath w spec containerId) = w \<and>
         (os_Getwd w = (dir, None) \<longrightarrow>
            fst (changeToBundlePath w spec containerId) = (dir, Some InvalidSpec)) \<and>
         (os_Getwd w = (dir, Some err) \<longrightarrow>
            fst (changeToBundlePath w spec containerId) = (dir, Some err))"
  using assms
  by (auto simp: changeToBundlePath_def shapeValid_def InvalidSpec_def split: option.splits prod.splits)


theorem changeToBundlePath_invalid_spec_witness:
  "pathExists wPersisted (CanonicalConfigPath ''c1'') \<and>
   changeToBundlePath wPersisted (None :: Spec option) ''c1'' =
     ((''/run'', Some InvalidSpec), wPersisted) \<and>
   changeToBundlePath wPersisted (Some specNoRoot) ''c1'' =
     ((''/run'', Some InvalidSpec), wPersisted) \<and>
   changeToBundlePath wPersisted (Some specEmptyPath) ''c1'' =
     ((''/run'', Some InvalidSpec), wPersisted) \<and>
   changeToBundlePath wFresh (Some specNoRoot) ''c1'' = ((''/run'', Some InvalidSpec), wFresh) \<and>
   changeToBundlePath wGonePersisted (Some specNoRoot) ''c1'' =
     (([], Some (SyscallError ''getwd'' ENOENT)), wGonePersisted)"
proof -
  have v: "\<not> shapeValid (None :: Spec option)" "\<not> shapeValid (Some specNoRoot)"
    "\<not> shapeValid (Some specEmptyPath)"
    by code_simp+
  have e: "pathExists wPersisted (CanonicalConfigPath ''c1'')"
    by code_simp
  have g: "os_Getwd wPersisted = (''/run'', None)" "os_Getwd wFresh = (''/run'', None)"
    "os_Getwd wGonePersisted = ([], Some (SyscallError ''getwd'' ENOENT))"
    by code_simp+
  show ?thesis
    using changeToBundlePath_invalid_spec [OF v(1), of wPersisted "''c1''" "''/run''"]
      changeToBundlePath_invalid_spec [OF v(2), of wPersisted "''c1''" "''/run''"]
      changeToBundlePath_invalid_spec [OF v(3), of wPersisted "''c1''" "''/run''"]
      changeToBundlePath_invalid_spec [OF v(2), of wFresh "''c1''" "''/run''"]
      changeToBundlePath_invalid_spec [OF v(2), of wGonePersisted "''c1''" "[]"
        "SyscallError ''getwd'' ENOENT"]
    by (simp add: g e prod_eq_iff)
qed

text \<open>
  Claim C6 as stated fails: the spec has no root, the working directory has been
  removed, and the error is that of os.Getwd.
\<close>

theorem changeToBundlePath_invalid_spec_counterexample:
  "\<not> shapeValid (Some specNoRoot) \<and>
   changeToBundlePath wGonePersisted (Some specNoRoot) ''c1'' =
     (([], Some (SyscallError ''getwd'' ENOENT)), wGonePersisted) \<and>
   SyscallError ''getwd'' ENOENT \<noteq> InvalidSpec"
  by code_simp

section \<open>Properties of writeSpecToFile\<close>

lemma lookup_put_same: "lookup r cs = Inr x \<Longrightarrow> lookup (put r cs n) cs = Inr n"
proof (induction r cs arbitrary: x rule: lookup.induct)
  case (1 n')
  show ?case by simp
next
  case (2 m es c cs)
  then show ?case
    by (auto simp: AList.update_conv' split: option.splits)
next
  case (3 m d c cs)
  then show ?case by simp
next
  case (4 t c cs)
  then show ?case by simp
qed

lemma rooted_not_Nil: "rooted p \<Longrightarrow> p \<noteq> []"
  by (auto simp: rooted_def)

lemma namei_rooted: "rooted p \<Longrightarrow> namei w p = Inr (rev (fold (cleanStep True) (components p) []))"
  by (simp add: namei_def rooted_not_Nil)

lemma OpenFile_path:
  "os_OpenFile w name fl perm = (Inr f, w') \<Longrightarrow> namei w name = Inr (f_path f)"
  by (auto simp: os_OpenFile_def split: sum.splits inode.splits if_splits)

lemma File_Write_file:
  assumes "File_Write w f b = ((n, None), w', f')"
  shows "\<exists>m d. lookup (fs w') (f_path f) = Inr (File m d)"
proof -
  from assms obtain m d where l: "lookup (fs w) (f_path f) = Inr (File m d)"
    by (auto simp: File_Write_def split: if_splits sum.splits inode.splits)
  with assms obtain d' where "fs w' = put (fs w) (f_path f) (File m d')"
    by (auto simp: File_Write_def Let_def split: if_splits)
  with lookup_put_same [OF l] show ?thesis by auto
qed

lemma configPath_nested:
  "filepath_Join [filepath_Join [ociConfigBasePath, containerId], ociConfigFile] =
   CanonicalConfigPath containerId"
  unfolding filepath_Join_def CanonicalConfigPath_def
  by (rule path_Join_nested) (simp add: ociConfigFile_def)

lemma rooted_CanonicalConfigPath: "rooted (CanonicalConfigPath containerId)"
proof -
  let ?p = "ociConfigBasePath @ CHR ''/'' # containerId @ CHR ''/'' # ociConfigFile"
  have "CanonicalConfigPath containerId = Clean ?p"
    by (simp add: CanonicalConfigPath_def filepath_Join_def path_Join_def ociConfigBasePath_def)
  moreover have "rooted (Clean ?p) = rooted ?p"
    by (rule rooted_Clean) simp
  moreover have "rooted ?p"
    by (simp add: rooted_def ociConfigBasePath_def)
  ultimately show ?thesis by simp
qed


text \<open>
  Claim C9. After writeSpecToFile has returned without error, a file exists at the
  canonical config path of the container: Stat on it succeeds.
\<close>

theorem writeSpecToFile_config_exists:
  assumes "writeSpecToFile marshal w spec containerId = (None, w')"
  shows "pathExists w' (CanonicalConfigPath containerId)"
proof -
  let ?cp = "CanonicalConfigPath containerId"
  from assms obtain w1 w2 f f' where
      op: "os_OpenFile w1 ?cp (O_WRONLY OR O_CREATE) ociConfigFileMode = (Inr f, w2)"
    and en: "Encoder_Encode marshal w2 f spec = (None, w', f')"
    by (auto simp: writeSpecToFile_def Let_def configPath_nested
        split: prod.splits option.splits sum.splits)
  from en obtain b n where "File_Write w2 f (b @ [CHR 0x0A]) = ((n, None), w', f')"
    by (auto simp: Encoder_Encode_def split: sum.splits prod.splits)
  then obtain m d where isfile: "lookup (fs w') (f_path f) = Inr (File m d)"
    using File_Write_file by blast
  have "namei w1 ?cp = Inr (f_path f)"
    using op by (rule OpenFile_path)
  then have "namei w' ?cp = Inr (f_path f)"
    by (simp add: namei_rooted [OF rooted_CanonicalConfigPath])
  with isfile show ?thesis
    by (simp add: pathExists_def os_Stat_def follow_def)
qed


theorem writeSpecToFile_config_exists_witness:
  "writeSpecToFile marshalPlain wFresh (Some specLong) ''c1'' = (None, wOnce) \<and>
   pathExists wOnce (CanonicalConfigPath ''c1'')"
proof -
  have a: "writeSpecToFile marshalPlain wFresh (Some specLong) ''c1'' = (None, wOnce)"
    by code_simp
  show ?thesis
    using writeSpecToFile_config_exists [OF a] a by simp
qed

lemma lookup_parent:
  "lookup r (cs @ [c]) = Inr x \<Longrightarrow> \<exists>m es. lookup r cs = Inr (Dir m es)"
proof (induction r cs rule: lookup.induct)
  case (1 n)
  then show ?case by (cases n) simp_all
next
  case (2 m es c' cs)
  then show ?case by (auto split: option.splits)
next
  case (3 m d c' cs)
  then show ?case by simp
next
  case (4 t c' cs)
  then show ?case by simp
qed

lemma rooted_configJsonDir: "rooted (filepath_Join [ociConfigBasePath, containerId])"
proof -
  let ?p = "ociConfigBasePath @ CHR ''/'' # containerId"
  have "filepath_Join [ociConfigBasePath, containerId] = Clean ?p"
    by (simp add: filepath_Join_def path_Join_def ociConfigBasePath_def)
  moreover have "rooted (Clean ?p) = rooted ?p"
    by (rule rooted_Clean) simp
  moreover have "rooted ?p"
    by (simp add: rooted_def ociConfigBasePath_def)
  ultimately show ?thesis by simp
qed

lemma configPath_elems:
  "fold (cleanStep True) (components (CanonicalConfigPath containerId)) [] =
   ociConfigFile # fold (cleanStep True) (components (filepath_Join [ociConfigBasePath, containerId])) []"
proof -
  let ?dir = "filepath_Join [ociConfigBasePath, containerId]"
  let ?q = "?dir @ CHR ''/'' # ociConfigFile"
  have ne: "?dir \<noteq> []"
    using rooted_configJsonDir [of containerId] by (auto simp: rooted_def)
  have rq: "rooted ?q"
    using rooted_configJsonDir [of containerId] ne by (simp add: rooted_append)
  have "CanonicalConfigPath containerId = filepath_Join [?dir, ociConfigFile]"
    by (simp add: configPath_nested)
  also have "\<dots> = Clean ?q"
    using ne by (simp add: filepath_Join_def path_Join_def)
  finally have "fold (cleanStep True) (components (CanonicalConfigPath containerId)) [] =
      fold (cleanStep True) (components ?q) []"
    using fold_components_Clean [of ?q] rq by simp
  also have "\<dots> = cleanStep True ociConfigFile (fold (cleanStep True) (components ?dir) [])"
    by (simp add: components_append components_of_noslash ociConfigFile_def)
  also have "\<dots> = ociConfigFile # fold (cleanStep True) (components ?dir) []"
    by (simp add: cleanStep_def ociConfigFile_def)
  finally show ?thesis .
qed

lemma open_flags:
  "(O_WRONLY OR O_CREATE) AND O_CREATE \<noteq> 0"
  "(O_WRONLY OR O_CREATE) AND O_EXCL = 0"
  "(O_WRONLY OR O_CREATE) AND O_TRUNC = 0"
  "(O_WRONLY OR O_CREATE) AND O_APPEND = 0"
  "writable (O_WRONLY OR O_CREATE)"
  by (simp_all add: O_WRONLY_def O_CREATE_def O_EXCL_def O_TRUNC_def O_APPEND_def O_RDWR_def
      writable_def)

text \<open>
  Writing over an existing config file: the call succeeds and the file then holds the
  new encoding followed by whatever the old content had beyond its length.
\<close>

lemma writeSpecToFile_keeps_tail:
  assumes old: "contentAt w (CanonicalConfigPath containerId) = Some old"
    and enc: "marshal spec = Inr b"
  shows "\<exists>w'. writeSpecToFile marshal w spec containerId = (None, w') \<and>
           contentAt w' (CanonicalConfigPath containerId) =
             Some (b @ CHR 0x0A # drop (Suc (length b)) old)"
proof -
  let ?cp = "CanonicalConfigPath containerId"
  let ?dir = "filepath_Join [ociConfigBasePath, containerId]"
  let ?ed = "rev (fold (cleanStep True) (components ?dir) [])"
  let ?ec = "?ed @ [ociConfigFile]"
  let ?new = "b @ CHR 0x0A # drop (Suc (length b)) old"
  have nc: "namei v ?cp = Inr ?ec" for v
    by (simp add: namei_rooted [OF rooted_CanonicalConfigPath] configPath_elems)
  have nd: "namei w ?dir = Inr ?ed"
    by (simp add: namei_rooted [OF rooted_configJsonDir])
  from old obtain m where f: "lookup (fs w) ?ec = Inr (File m old)"
    by (auto simp: contentAt_def nc follow_def split: sum.splits inode.splits)
  then obtain dm des where d: "lookup (fs w) ?ed = Inr (Dir dm des)"
    using lookup_parent by blast
  have mk: "os_MkdirAll w ?dir 0x1C0 = (None, w)"
    using d by (simp add: os_MkdirAll_def nd mkdirAll.simps [of "fs w" ?ed] follow_def)
  let ?f = "\<lparr>f_path = ?ec, f_flag = O_WRONLY OR O_CREATE, f_off = 0\<rparr>"
  have op: "os_OpenFile w ?cp (O_WRONLY OR O_CREATE) ociConfigFileMode = (Inr ?f, w)"
    using f by (simp add: os_OpenFile_def nc open_flags)
  let ?w' = "w\<lparr>fs := put (fs w) ?ec (File m ?new)\<rparr>"
  have wr: "File_Write w ?f (b @ [CHR 0x0A]) =
      ((Suc (length b), None), ?w', ?f\<lparr>f_off := Suc (length b)\<rparr>)"
    using f by (simp add: File_Write_def open_flags Let_def)
  have "writeSpecToFile marshal w spec containerId = (None, ?w')"
    by (simp add: writeSpecToFile_def Let_def mk configPath_nested op Encoder_Encode_def enc wr)
  moreover have "contentAt ?w' ?cp = Some ?new"
    using lookup_put_same [OF f, of "File m ?new"]
    by (simp add: contentAt_def nc follow_def)
  ultimately show ?thesis by blast
qed


text \<open>
  Claim C2 fails on the code. The file is opened without \<open>O_TRUNC\<close>: a second
  writeSpecToFile for the same id, with a spec whose encoding is shorter, succeeds and
  leaves the end of the first encoding in the file after the second one.
\<close>

theorem writeSpecToFile_twice_stale_tail:
  "fst (writeSpecToFile marshalPlain wFresh (Some specLong) ''c1'') = None \<and>
   contentAt wOnce (CanonicalConfigPath ''c1'') = Some (encoded specLong) \<and>
   fst (writeSpecToFile marshalPlain wOnce (Some specShort) ''c1'') = None \<and>
   contentAt wTwice (CanonicalConfigPath ''c1'') =
     Some (encoded specShort @ ''rootfs'' @ [CHR 0x22] @ ''}}'' @ [CHR 0x0A]) \<and>
   contentAt wTwice (CanonicalConfigPath ''c1'') \<noteq> Some (encoded specShort)"
  by code_simp


end
